theory Spec2Isabelle
  imports Complex_Main
begin

section \<open>Systematic conformer search (autotst/conformer/systematic.py)\<close>

text \<open>
  The module has two functions: \<open>find_all_combos\<close>, which enumerates the combinations of
  torsion angles, E/Z labels and R/S labels, and \<open>systematic_search\<close>, which applies every
  combination to the conformer, relaxes the candidates in separate processes, filters and
  de-duplicates the relaxed results and wraps the survivors as conformers.

  Conventions of the embedding.
  \<^item> Python floats (angles, energies, interatomic distances) are read as real numbers.
    The comparisons of the source are kept as they are written (\<open><\<close>, \<open>>\<close>).
  \<^item> A numpy array of two dimensions is a list of rows; a pandas Series or a column of a
    data frame is a list.
  \<^item> A Python exception is a value \<open>Inl e\<close> of a sum type.
  \<^item> A conformer is a mutable object. Objects live in a store, and a variable such as
    \<open>conformer\<close> holds a reference (a store address); \<open>copy()\<close> allocates a new object.
  \<^item> Everything the module imports from elsewhere (ASE, the \<open>Conformer\<close> class, the helper
    \<open>find_terminal_torsions\<close>, the optimiser run in the child processes) is a field of
    the record \<open>externals\<close>, and every function of the module takes that record as its
    first argument.
\<close>

subsection \<open>Exceptions\<close>

datatype py_error =
    ArangeError       \<comment> \<open>\<open>np.arange\<close> with step 0\<close>
  | NumpyTypeError    \<comment> \<open>a reduction over an array of strings\<close>
  | IndexError
  | KeyError
  | ValueError        \<comment> \<open>numpy cannot broadcast two shapes, or pandas is given data of two dimensions\<close>

subsection \<open>itertools and numpy\<close>

text \<open>
  \<open>itertools.combinations_with_replacement(pool, r)\<close>: the tuples of length \<open>r\<close> whose
  positions in the pool do not decrease, emitted in lexicographic order of the positions.
\<close>

fun combinations_with_replacement :: "'a list \<Rightarrow> nat \<Rightarrow> 'a list list" where
  "combinations_with_replacement pool 0 = [[]]"
| "combinations_with_replacement [] (Suc r) = []"
| "combinations_with_replacement (x # pool) (Suc r) =
     map ((#) x) (combinations_with_replacement (x # pool) r)
     @ combinations_with_replacement pool (Suc r)"

text \<open>
  \<open>np.arange(0, 360, delta)\<close> for a float \<open>delta\<close>: \<open>ceil(360 / delta)\<close> values
  \<open>0, delta, 2 * delta, ...\<close>; no value for a negative step; an exception for step 0.
\<close>

definition arange :: "real \<Rightarrow> py_error + real list" where
  "arange delta =
     (if delta = 0 then Inl ArangeError
      else Inr (map (\<lambda>i. real i * delta) [0..<nat \<lceil>360 / delta\<rceil>]))"

text \<open>One combination: (torsion angles, E/Z labels, R/S labels).\<close>

type_synonym combo = "real list \<times> string list \<times> string list"

text \<open>
  \<open>np.any(combos)\<close> on the list of combinations, as numpy 1.x builds the array.
  When the three tuples of every combination have one common length \<open>n\<close> the array is
  rectangular: of floats and empty for \<open>n = 0\<close> (no element is true), of strings for
  \<open>n > 0\<close> (floats and labels mixed), which numpy refuses to reduce. Otherwise the array
  holds the tuples as objects, and a non-empty tuple is true.
\<close>

definition np_any :: "combo list \<Rightarrow> py_error + bool" where
  "np_any combos =
     (case combos of
        [] \<Rightarrow> Inr False
      | (t, c, s) # _ \<Rightarrow>
          if list_all (\<lambda>(t', c', s'). length t' = length t \<and> length c' = length t
                                    \<and> length s' = length t) combos
          then (if length t = 0 then Inr False else Inl NumpyTypeError)
          else Inr (list_ex (\<lambda>(t', c', s'). t' \<noteq> [] \<or> c' \<noteq> [] \<or> s' \<noteq> []) combos))"

subsection \<open>The conformer and what the module imports\<close>

record torsion =
  atom_indices :: "nat \<times> nat \<times> nat \<times> nat"
  mask :: "bool list"

record cistrans_bond =
  ct_index :: nat

record chiral_center =
  atom_index :: nat

text \<open>
  The state of a \<open>Conformer\<close> object. \<open>'g\<close> is the state of its \<open>ase_molecule\<close>
  (an \<open>ase.Atoms\<close>), which the object owns.
\<close>

record 'g conformer =
  smiles :: string
  torsions :: "torsion list"
  cistrans :: "cistrans_bond list"
  chiral_centers :: "chiral_center list"
  ase_molecule :: 'g
  energy :: "real option"
  index :: "nat option"

text \<open>
  One entry of \<open>return_dict\<close>: \<open>(energy, arrays, distances)\<close>. \<open>arrays\<close> is the dictionary
  \<open>ase_molecule.arrays\<close>; \<open>distances\<close> is the matrix \<open>get_all_distances()\<close>.
\<close>

type_synonym 'p relaxed = "real \<times> (string \<rightharpoonup> 'p) \<times> real list list"

text \<open>
  A row of the data frame of line 231. \<open>df_index\<close> is the row's label in \<open>df.index\<close>; the
  other fields are the columns \<open>energy\<close>, \<open>arrays\<close> and \<open>distances\<close>.
\<close>

record 'p df_row =
  df_index :: nat
  df_energy :: real
  df_arrays :: "string \<rightharpoonup> 'p"
  df_distances :: "real list list"

text \<open>
  The object store: \<open>store h r\<close> is the state of the object that the reference \<open>r\<close>
  points to, and the references below \<open>next_ref h\<close> are the ones in use.
\<close>

record 'g heap =
  store :: "nat \<Rightarrow> 'g conformer"
  next_ref :: nat

text \<open>
  The imports. \<open>copy\<close> gives the state of the new object that \<open>Conformer.copy()\<close> returns.
  \<open>run_processes\<close> stands for lines 185 to 224: one child process per candidate runs
  \<open>opt_conf\<close> on its own copy of the memory and writes \<open>return_dict[i]\<close>; the parent
  polls until no child is alive. Its value is \<open>return_dict.items()\<close>, in the order the
  dictionary yields them, or \<open>None\<close> when a child never ends. A child that crashed has
  no entry. \<open>quicksort_ties\<close> is the order in which the sort of line 232 leaves rows of
  equal energy (see \<open>sort_values\<close> below).
\<close>

record ('g, 'p) externals =
  find_terminal_torsions :: "'g conformer \<Rightarrow> torsion list \<times> torsion list"
  set_dihedral :: "nat \<Rightarrow> nat \<Rightarrow> nat \<Rightarrow> nat \<Rightarrow> real \<Rightarrow> bool list \<Rightarrow> 'g \<Rightarrow> 'g"
  update_coords :: "'g conformer \<Rightarrow> 'g conformer"
  set_cistrans :: "nat \<Rightarrow> string \<Rightarrow> 'g conformer \<Rightarrow> 'g conformer"
  set_chirality :: "nat \<Rightarrow> string \<Rightarrow> 'g conformer \<Rightarrow> 'g conformer"
  update_coords_from :: "string \<Rightarrow> 'g conformer \<Rightarrow> 'g conformer"
  set_positions :: "'p \<Rightarrow> 'g \<Rightarrow> 'g"
  copy :: "'g conformer \<Rightarrow> 'g conformer"
  run_processes :: "(nat \<Rightarrow> 'g conformer) \<Rightarrow> (nat \<times> nat) list \<Rightarrow> (nat \<times> 'p relaxed) list option"
  quicksort_ties :: "'p df_row list \<Rightarrow> 'p df_row \<Rightarrow> nat"
  units_kcal :: real
  units_mol :: real
  units_eV :: real

subsection \<open>find_all_combos\<close>

text \<open>
  Lines 60 to 69. \<open>list(set(...))\<close> removes duplicates; the order in which Python lists
  the elements of a set is not specified, and \<open>remdups\<close> fixes one. The theorems below
  speak of the elements and of their number only.
\<close>

definition torsion_combos :: "real list \<Rightarrow> nat \<Rightarrow> real list list" where
  "torsion_combos torsion_angles n =
     (let combos = combinations_with_replacement torsion_angles n
      in if n \<noteq> 1
         then remdups (combos @ combinations_with_replacement (rev torsion_angles) n)
         else combos)"

text \<open>Lines 71 to 84; \<open>cistrans\<close> is the flag, \<open>n\<close> is \<open>len(conformer.cistrans)\<close>.\<close>

definition cistrans_combos :: "bool \<Rightarrow> nat \<Rightarrow> string list list" where
  "cistrans_combos cistrans_flag n =
     (if cistrans_flag then
        (let cistrans_options = [''E'', ''Z''];
             combos = combinations_with_replacement cistrans_options n
         in if n \<noteq> 1
            then remdups (combos @ combinations_with_replacement (rev cistrans_options) n)
            else combos)
      else [[]])"

text \<open>
  Lines 86 to 98. Line 58 has rebound the name \<open>chiral_centers\<close> to the list
  \<open>conformer.chiral_centers\<close>, so the test of line 86 is on that list (true when it is
  not empty), not on the keyword argument.
\<close>

definition chiral_combos :: "chiral_center list \<Rightarrow> string list list" where
  "chiral_combos chiral_centers_list =
     (if chiral_centers_list \<noteq> [] then
        (let chiral_options = [''R'', ''S''];
             n = length chiral_centers_list;
             combos = combinations_with_replacement chiral_options n
         in if n \<noteq> 1
            then remdups (combos @ combinations_with_replacement (rev chiral_options) n)
            else combos)
      else [[]])"

text \<open>
  \<open>itertools.product\<close> of three lists is \<open>List.product\<close> nested: the first list is the
  outermost loop. The keyword argument \<open>chiral_centers\<close> is taken and never read.
\<close>

definition find_all_combos ::
  "('g, 'p) externals \<Rightarrow> 'g conformer \<Rightarrow> real \<Rightarrow> bool \<Rightarrow> bool \<Rightarrow> py_error + combo list" where
  "find_all_combos ext conformer delta cistrans_flag chiral_centers_flag =
     (let (terminal_torsions, torsions) = find_terminal_torsions ext conformer;
          cistranss = cistrans conformer;
          chiral_centers_list = chiral_centers conformer
      in case arange delta of
           Inl e \<Rightarrow> Inl e
         | Inr torsion_angles \<Rightarrow>
             Inr (List.product (torsion_combos torsion_angles (length torsions))
                    (List.product (cistrans_combos cistrans_flag (length cistranss))
                       (chiral_combos chiral_centers_list))))"

subsection \<open>systematic_search: building the candidates (lines 144 to 179)\<close>

text \<open>A new object with the given state; the reference to it is returned.\<close>

definition alloc :: "'g heap \<Rightarrow> 'g conformer \<Rightarrow> nat \<times> 'g heap" where
  "alloc h c = (next_ref h, h\<lparr>store := (store h)(next_ref h := c), next_ref := Suc (next_ref h)\<rparr>)"

text \<open>
  Lines 153 to 167, on the state of the object \<open>conformer\<close>: the list is
  \<open>enumerate(torsions)\<close>. \<open>conformer.torsions[i]\<close> raises when \<open>i\<close> is out of range.
\<close>

fun set_torsions ::
  "('g, 'p) externals \<Rightarrow> (nat \<times> real) list \<Rightarrow> 'g conformer \<Rightarrow> py_error + 'g conformer" where
  "set_torsions ext [] c = Inr c"
| "set_torsions ext ((i, torsion) # rest) c =
     (if i < length (torsions c) then
        (let tor = torsions c ! i;
             (a1, a2, a3, a4) = atom_indices tor;
             c1 = c\<lparr>ase_molecule :=
                     set_dihedral ext a1 a2 a3 a4 torsion (mask tor) (ase_molecule c)\<rparr>
         in set_torsions ext rest (update_coords ext c1))
      else Inl IndexError)"

text \<open>Lines 169 to 171.\<close>

fun set_cistranss ::
  "('g, 'p) externals \<Rightarrow> (nat \<times> string) list \<Rightarrow> 'g conformer \<Rightarrow> py_error + 'g conformer" where
  "set_cistranss ext [] c = Inr c"
| "set_cistranss ext ((i, e_z) # rest) c =
     (if i < length (cistrans c) then
        (let ct = cistrans c ! i
         in set_cistranss ext rest (set_cistrans ext (ct_index ct) e_z c))
      else Inl IndexError)"

text \<open>Lines 173 to 175.\<close>

fun set_chiralities ::
  "('g, 'p) externals \<Rightarrow> (nat \<times> string) list \<Rightarrow> 'g conformer \<Rightarrow> py_error + 'g conformer" where
  "set_chiralities ext [] c = Inr c"
| "set_chiralities ext ((i, s_r) # rest) c =
     (if i < length (chiral_centers c) then
        (let center = chiral_centers c ! i
         in set_chiralities ext rest (set_chirality ext (atom_index center) s_r c))
      else Inl IndexError)"

text \<open>
  The body of the loop of line 147 up to line 177, on the state of the object
  \<open>conformer\<close>: every call of the body is made on \<open>conformer\<close> itself.
\<close>

definition apply_combo ::
  "('g, 'p) externals \<Rightarrow> combo \<Rightarrow> 'g conformer \<Rightarrow> py_error + 'g conformer" where
  "apply_combo ext combo c =
     (let (torsions_t, cistrans_t, chiral_centers_t) = combo
      in case set_torsions ext (enumerate 0 torsions_t) c of
           Inl e \<Rightarrow> Inl e
         | Inr c1 \<Rightarrow>
             (case set_cistranss ext (enumerate 0 cistrans_t) c1 of
                Inl e \<Rightarrow> Inl e
              | Inr c2 \<Rightarrow>
                  (case set_chiralities ext (enumerate 0 chiral_centers_t) c2 of
                     Inl e \<Rightarrow> Inl e
                   | Inr c3 \<Rightarrow> Inr (update_coords_from ext ''ase'' c3))))"

text \<open>
  The loop of line 147. \<open>conformer\<close> is the reference the caller passed; the body
  changes the object it points to, and line 179 stores a reference to a copy of that
  object under the key \<open>idx\<close> (the source's \<open>index\<close>). The dictionary \<open>conformers\<close> is the list of its
  items in insertion order.
\<close>

fun build_conformers ::
  "('g, 'p) externals \<Rightarrow> nat \<Rightarrow> (nat \<times> combo) list \<Rightarrow> 'g heap \<Rightarrow> (nat \<times> nat) list
   \<Rightarrow> py_error + ('g heap \<times> (nat \<times> nat) list)" where
  "build_conformers ext conformer [] h conformers = Inr (h, conformers)"
| "build_conformers ext conformer ((idx, combo) # rest) h conformers =
     (case apply_combo ext combo (store h conformer) of
        Inl e \<Rightarrow> Inl e
      | Inr c \<Rightarrow>
          (let h1 = h\<lparr>store := (store h)(conformer := c)\<rparr>;
               (r, h2) = alloc h1 (copy ext (store h1 conformer))
           in build_conformers ext conformer rest h2 (conformers @ [(idx, r)])))"

subsection \<open>systematic_search: filtering and de-duplicating (lines 226 to 242)\<close>

text \<open>Line 231: the rows are labelled by their position in the list \<open>results\<close>.\<close>

definition DataFrame :: "'p relaxed list \<Rightarrow> 'p df_row list" where
  "DataFrame results =
     map (\<lambda>(i, (e, a, d)). \<lparr>df_index = i, df_energy = e, df_arrays = a, df_distances = d\<rparr>)
       (enumerate 0 results)"

text \<open>\<open>df.energy.min()\<close>; pandas gives NaN for a frame without rows, here \<open>None\<close>.\<close>

definition energy_min :: "'p df_row list \<Rightarrow> real option" where
  "energy_min df = (case map df_energy df of [] \<Rightarrow> None | e # es \<Rightarrow> Some (fold min es e))"

text \<open>
  Line 232, the selection \<open>df[df.energy < df.energy.min() + window]\<close>. A comparison with
  NaN is false, so a frame without rows stays without rows.
\<close>

definition select_window :: "real \<Rightarrow> 'p df_row list \<Rightarrow> 'p df_row list" where
  "select_window window df =
     (case energy_min df of
        None \<Rightarrow> []
      | Some m \<Rightarrow> filter (\<lambda>r. df_energy r < m + window) df)"

text \<open>
  Line 232, \<open>.sort_values("energy")\<close>, with pandas' default sort (quicksort). The rows come
  out in ascending order of energy; the order among rows of equal energy is left to the
  sort and is not the order of the frame in general. It is given by the import
  \<open>quicksort_ties\<close>, passed here as \<open>ties\<close>: among rows of equal energy the one with the
  smaller value of \<open>ties df\<close> comes first. \<open>sort_key\<close> is stable, so the outer sort keeps
  the order the inner one has made.
\<close>

definition sort_values ::
  "('p df_row list \<Rightarrow> 'p df_row \<Rightarrow> nat) \<Rightarrow> 'p df_row list \<Rightarrow> 'p df_row list" where
  "sort_values ties df = sort_key df_energy (sort_key (ties df) df)"

text \<open>Lines 231 and 232: from the list \<open>results\<close> to the filtered and sorted frame.\<close>

definition filtered_frame ::
  "('p df_row list \<Rightarrow> 'p df_row \<Rightarrow> nat) \<Rightarrow> real \<Rightarrow> 'p relaxed list \<Rightarrow> 'p df_row list" where
  "filtered_frame ties window results =
     sort_values ties (select_window window (DataFrame results))"

text \<open>\<open>np.mean\<close> of a matrix: the mean of all its entries.\<close>

definition np_mean :: "real list list \<Rightarrow> real" where
  "np_mean m = sum_list (concat m) / real (length (concat m))"

text \<open>\<open>df['distances'][index]\<close>: the entry of the column at the label \<open>index\<close>.\<close>

definition loc_distances :: "'p df_row list \<Rightarrow> nat \<Rightarrow> py_error + real list list" where
  "loc_distances df idx =
     (case find (\<lambda>r. df_index r = idx) df of
        None \<Rightarrow> Inl KeyError
      | Some r \<Rightarrow> Inr (df_distances r))"

text \<open>
  Line 241, the subtraction \<open>df['distances'][index] - df.distances\<close>. The left operand is
  one distance matrix, an array of shape \<open>(n, n)\<close> for \<open>n\<close> atoms; the right operand is the
  column, a Series of \<open>m\<close> matrices. pandas takes the array for one operand of \<open>m\<close> values
  and hands both to numpy, which broadcasts the shapes \<open>(n, n)\<close> and \<open>(m,)\<close>. They fit only
  when \<open>m = n\<close>, \<open>m = 1\<close> or \<open>n = 1\<close>; otherwise numpy raises. When they fit, the result has
  two dimensions and the constructor of the resulting Series raises. No value is ever
  returned: the matrices are not subtracted row by row.
\<close>

definition array_minus_series ::
  "real list list \<Rightarrow> (nat \<times> real list list) list \<Rightarrow> py_error + (nat \<times> real list list) list" where
  "array_minus_series a column =
     (let n = length a; m = length column
      in if m = n \<or> m = 1 \<or> n = 1
         then Inl ValueError    \<comment> \<open>Data must be 1-dimensional\<close>
         else Inl ValueError)   \<comment> \<open>operands could not be broadcast together\<close>"

text \<open>
  The loop of lines 235 to 242. The second argument is what is left of
  \<open>zip(df.index, df.distances)\<close>. After the subtraction, line 241 squares the entries of
  every matrix of the difference, takes the mean of each, its square root, and compares
  with 0.1; \<open>is_close\<close> is the source's name for the series that is true where the value is
  greater than 0.1. Line 242 adds the labels where it is false to \<open>scratch_index\<close> unless
  they are there already.
\<close>

fun unique_loop ::
  "'p df_row list \<Rightarrow> 'p df_row list \<Rightarrow> nat list \<Rightarrow> nat list \<Rightarrow> py_error + (nat list \<times> nat list)" where
  "unique_loop df [] scratch_index unique_index = Inr (scratch_index, unique_index)"
| "unique_loop df (row # rest) scratch_index unique_index =
     (let idx = df_index row
      in if idx \<in> set scratch_index then unique_loop df rest scratch_index unique_index
         else
           (case loc_distances df idx of
              Inl e \<Rightarrow> Inl e
            | Inr dists \<Rightarrow>
                (case array_minus_series dists (map (\<lambda>q. (df_index q, df_distances q)) df) of
                   Inl e \<Rightarrow> Inl e
                 | Inr differences \<Rightarrow>
                     (let is_close =
                            map (\<lambda>(d, m). (d, sqrt (np_mean (map (map (\<lambda>x. x\<^sup>2)) m)) > 0.1))
                              differences;
                          new = filter (\<lambda>d. d \<notin> set scratch_index)
                                  (map fst (filter (\<lambda>(d, b). b = False) is_close))
                      in unique_loop df rest (scratch_index @ new) (unique_index @ [idx])))))"

text \<open>Lines 233 to 242: \<open>unique_index\<close> after the loop over the whole frame.\<close>

definition find_unique :: "'p df_row list \<Rightarrow> py_error + nat list" where
  "find_unique df =
     (case unique_loop df df [] [] of
        Inl e \<Rightarrow> Inl e
      | Inr (scratch_index, unique_index) \<Rightarrow> Inr unique_index)"

text \<open>
  \<open>df.loc[unique_index]\<close>: the rows with the given labels, in the order of the labels;
  a label that the frame does not have raises.
\<close>

fun loc :: "'p df_row list \<Rightarrow> nat list \<Rightarrow> py_error + 'p df_row list" where
  "loc df [] = Inr []"
| "loc df (idx # rest) =
     (case find (\<lambda>r. df_index r = idx) df of
        None \<Rightarrow> Inl KeyError
      | Some r \<Rightarrow>
          (case loc df rest of
             Inl e \<Rightarrow> Inl e
           | Inr rows \<Rightarrow> Inr (r # rows)))"

text \<open>
  Lines 232 to 242 and the selection of line 246, on a frame: the rows of the filtered
  and sorted frame that the loop keeps.
\<close>

definition deduplicate ::
  "('p df_row list \<Rightarrow> 'p df_row \<Rightarrow> nat) \<Rightarrow> real \<Rightarrow> 'p df_row list \<Rightarrow> py_error + 'p df_row list" where
  "deduplicate ties window df0 =
     (let df = sort_values ties (select_window window df0)
      in case find_unique df of
           Inl e \<Rightarrow> Inl e
         | Inr unique_index \<Rightarrow> loc df unique_index)"

subsection \<open>systematic_search: the returned conformers (lines 245 to 256)\<close>

text \<open>\<open>df[["energy", "arrays"]]....values\<close>: the two columns of the rows.\<close>

definition energy_arrays :: "'p df_row list \<Rightarrow> (real \<times> (string \<rightharpoonup> 'p)) list" where
  "energy_arrays rows = map (\<lambda>r. (df_energy r, df_arrays r)) rows"

text \<open>
  Lines 227 to 246, from \<open>return_dict.items()\<close> to the array that the loop of line 246
  runs over. Lines 228 and 229 append the values and leave the keys; line 231 labels the
  rows by their position in that list.
\<close>

definition kept_energy_arrays ::
  "('p df_row list \<Rightarrow> 'p df_row \<Rightarrow> nat) \<Rightarrow> real \<Rightarrow> (nat \<times> 'p relaxed) list
   \<Rightarrow> py_error + (real \<times> (string \<rightharpoonup> 'p)) list" where
  "kept_energy_arrays ties window items =
     (let results = map snd items
      in case deduplicate ties window (DataFrame results) of
           Inl e \<Rightarrow> Inl e
         | Inr rows \<Rightarrow> Inr (energy_arrays rows))"

text \<open>
  The loop of line 246 over \<open>enumerate(...)\<close>: a copy of the object \<open>conformer\<close> is
  changed in place, and a copy of that copy is appended to \<open>confs\<close>.
\<close>

fun assemble ::
  "('g, 'p) externals \<Rightarrow> nat \<Rightarrow> (nat \<times> real \<times> (string \<rightharpoonup> 'p)) list \<Rightarrow> 'g heap \<Rightarrow> nat list
   \<Rightarrow> py_error + ('g heap \<times> nat list)" where
  "assemble ext conformer [] h confs = Inr (h, confs)"
| "assemble ext conformer ((i, e, array) # rest) h confs =
     (let (copy_conf, h1) = alloc h (copy ext (store h conformer))
      in case array ''positions'' of
           None \<Rightarrow> Inl KeyError
         | Some positions \<Rightarrow>
             (let c1 = (store h1 copy_conf)\<lparr>energy := Some e\<rparr>;
                  c2 = c1\<lparr>index := Some i\<rparr>;
                  c3 = c2\<lparr>ase_molecule := set_positions ext positions (ase_molecule c2)\<rparr>;
                  c4 = update_coords_from ext ''ase'' c3;
                  h2 = h1\<lparr>store := (store h1)(copy_conf := c4)\<rparr>;
                  (r, h3) = alloc h2 (copy ext (store h2 copy_conf))
              in assemble ext conformer rest h3 (confs @ [r])))"

subsection \<open>systematic_search\<close>

text \<open>
  The whole function. \<open>conformer\<close> is the reference the caller passes and \<open>h\<close> the store at
  the call. The value is \<open>None\<close> when the function does not return (a child process never
  ends), an exception, or the returned list of references with the store at the return.
\<close>

definition systematic_search ::
  "('g, 'p) externals \<Rightarrow> nat \<Rightarrow> 'g heap \<Rightarrow> real \<Rightarrow> bool \<Rightarrow> bool
   \<Rightarrow> (py_error + (nat list \<times> 'g heap)) option" where
  "systematic_search ext conformer h delta cistrans_flag chiral_centers_flag =
     (case find_all_combos ext (store h conformer) delta cistrans_flag chiral_centers_flag of
        Inl e \<Rightarrow> Some (Inl e)
      | Inr combos \<Rightarrow>
          (case np_any combos of
             Inl e \<Rightarrow> Some (Inl e)
           | Inr False \<Rightarrow> Some (Inr ([conformer], h))
           | Inr True \<Rightarrow>
               (case build_conformers ext conformer (enumerate 0 combos) h [] of
                  Inl e \<Rightarrow> Some (Inl e)
                | Inr (h1, conformers) \<Rightarrow>
                    (case run_processes ext (store h1) conformers of
                       None \<Rightarrow> None
                     | Some items \<Rightarrow>
                         (let window = units_kcal ext / units_mol ext / units_eV ext
                          in case kept_energy_arrays (quicksort_ties ext) window items of
                               Inl e \<Rightarrow> Some (Inl e)
                             | Inr infos \<Rightarrow>
                                 (case assemble ext conformer (enumerate 0 infos) h1 [] of
                                    Inl e \<Rightarrow> Some (Inl e)
                                  | Inr (h2, confs) \<Rightarrow> Some (Inr (confs, h2))))))))"

subsection \<open>Auxiliary definitions for the proofs\<close>

text \<open>The state of the object \<open>conformer\<close> after the bodies of the loop of line 147 for a list of combinations.\<close>

fun apply_combos ::
  "('g, 'p) externals \<Rightarrow> combo list \<Rightarrow> 'g conformer \<Rightarrow> py_error + 'g conformer" where
  "apply_combos ext [] c = Inr c"
| "apply_combos ext (combo # rest) c =
     (case apply_combo ext combo c of
        Inl e \<Rightarrow> Inl e
      | Inr c1 \<Rightarrow> apply_combos ext rest c1)"

text \<open>
  Two outcomes of the relaxations of lines 185 to 224 with the same entries: in both the
  processes end, and \<open>return_dict\<close> holds the same entries under the same keys; the order
  in which \<open>items()\<close> yields them may differ. Or in both a process never ends.
\<close>

fun same_entries ::
  "(nat \<times> 'p relaxed) list option \<Rightarrow> (nat \<times> 'p relaxed) list option \<Rightarrow> bool" where
  "same_entries None None = True"
| "same_entries (Some items1) (Some items2) = (set items1 = set items2)"
| "same_entries _ _ = False"

subsection \<open>Example inputs\<close>

text \<open>
  A small instance of the imports, for the concrete checks below. The geometry of a
  conformer is kept in internal coordinates: the list of its dihedral angles, each under
  the four atom indices of its torsion. \<open>set_dihedral\<close> writes the angle of one torsion.
  No torsion is terminal. Every candidate is relaxed: candidate \<open>i\<close> keeps its geometry,
  has the energy \<open>i / 100\<close> and a distance matrix for four atoms. The sort leaves rows of
  equal energy in the order of the frame.
\<close>

type_synonym ex_geometry = "((nat \<times> nat \<times> nat \<times> nat) \<times> real) list"

fun ex_set_dihedral :: "nat \<Rightarrow> nat \<Rightarrow> nat \<Rightarrow> nat \<Rightarrow> real \<Rightarrow> bool list \<Rightarrow> ex_geometry \<Rightarrow> ex_geometry" where
  "ex_set_dihedral a1 a2 a3 a4 angle m [] = [((a1, a2, a3, a4), angle)]"
| "ex_set_dihedral a1 a2 a3 a4 angle m ((k, v) # g) =
     (if k = (a1, a2, a3, a4) then (k, angle) # g else (k, v) # ex_set_dihedral a1 a2 a3 a4 angle m g)"

definition ex_distances :: "real \<Rightarrow> real list list" where
  "ex_distances d = [[0, d, d, d], [d, 0, d, d], [d, d, 0, d], [d, d, d, 0]]"

definition ex_run_processes ::
  "(nat \<Rightarrow> ex_geometry conformer) \<Rightarrow> (nat \<times> nat) list \<Rightarrow> (nat \<times> ex_geometry relaxed) list option" where
  "ex_run_processes st conformers =
     Some (map (\<lambda>(i, r). (i, (real i / 100, [''positions'' \<mapsto> ase_molecule (st r)],
                              ex_distances (1 + real i)))) conformers)"

definition ex_ext :: "(ex_geometry, ex_geometry) externals" where
  "ex_ext =
     \<lparr>find_terminal_torsions = (\<lambda>c. ([], torsions c)),
      set_dihedral = ex_set_dihedral,
      update_coords = (\<lambda>c. c),
      set_cistrans = (\<lambda>i l c. c),
      set_chirality = (\<lambda>i l c. c),
      update_coords_from = (\<lambda>s c. c),
      set_positions = (\<lambda>p g. p),
      copy = (\<lambda>c. c),
      run_processes = ex_run_processes,
      quicksort_ties = (\<lambda>df r. 0),
      units_kcal = 1, units_mol = 1, units_eV = 1\<rparr>"

text \<open>
  A conformer with \<open>nt\<close> torsions, \<open>nc\<close> cis/trans bonds and \<open>ns\<close> chiral centres; every
  dihedral angle is 60 degrees.
\<close>

definition ex_torsion :: "nat \<Rightarrow> torsion" where
  "ex_torsion k = \<lparr>atom_indices = (k, k + 1, k + 2, k + 3), mask = []\<rparr>"

definition ex_conformer :: "nat \<Rightarrow> nat \<Rightarrow> nat \<Rightarrow> ex_geometry conformer" where
  "ex_conformer nt nc ns =
     \<lparr>smiles = ''C'', torsions = map ex_torsion [0..<nt],
      cistrans = map (\<lambda>k. \<lparr>ct_index = k\<rparr>) [0..<nc],
      chiral_centers = map (\<lambda>k. \<lparr>atom_index = k\<rparr>) [0..<ns],
      ase_molecule = map (\<lambda>k. (atom_indices (ex_torsion k), 60)) [0..<nt],
      energy = None, index = None\<rparr>"

text \<open>A store with one object, a conformer with one torsion, at the reference 0.\<close>

definition ex_heap :: "ex_geometry heap" where
  "ex_heap = \<lparr>store = (\<lambda>r. ex_conformer 1 0 0), next_ref = 1\<rparr>"




section \<open>Properties of find_all_combos\<close>

subsection \<open>Combinations with replacement\<close>

lemma cwr_sound:
  assumes "sorted_wrt R pool" and "\<And>x. R x x"
      and "t \<in> set (combinations_with_replacement pool r)"
  shows "sorted_wrt R t \<and> set t \<subseteq> set pool \<and> length t = r"
  using assms
proof (induction pool r arbitrary: t rule: combinations_with_replacement.induct)
  case (1 pool)
  then show ?case by simp
next
  case (2 r)
  then show ?case by simp
next
  case (3 x pool r)
  from 3(3) have srt: "sorted_wrt R pool" and hd: "\<forall>y\<in>set pool. R x y" by auto
  from 3(5) consider (a) u where "t = x # u" "u \<in> set (combinations_with_replacement (x # pool) r)"
    | (b) "t \<in> set (combinations_with_replacement pool (Suc r))" by auto
  then show ?case
  proof cases
    case a
    from 3(1)[OF 3(3) 3(4) a(2)] have u: "sorted_wrt R u" "set u \<subseteq> set (x # pool)" "length u = r"
      by auto
    have "\<forall>y\<in>set u. R x y" using u(2) hd 3(4) by auto
    with u a(1) show ?thesis by auto
  next
    case b
    from 3(2)[OF srt 3(4) b] show ?thesis by auto
  qed
qed

lemma cwr_complete:
  assumes "sorted_wrt (\<lambda>a b. R a b \<and> a \<noteq> b) pool"
      and "\<And>a b. R a b \<Longrightarrow> R b a \<Longrightarrow> a = b"
      and "sorted_wrt R t" and "set t \<subseteq> set pool" and "length t = r"
  shows "t \<in> set (combinations_with_replacement pool r)"
  using assms
proof (induction pool r arbitrary: t rule: combinations_with_replacement.induct)
  case (1 pool)
  then show ?case by simp
next
  case (2 r)
  then show ?case by simp
next
  case (3 x pool r)
  from 3(7) obtain y u where t: "t = y # u" and lu: "length u = r" by (cases t) auto
  from 3(3) have strict: "sorted_wrt (\<lambda>a b. R a b \<and> a \<noteq> b) pool"
    and above: "\<forall>z\<in>set pool. R x z \<and> x \<noteq> z" by auto
  show ?case
  proof (cases "y = x")
    case True
    have "u \<in> set (combinations_with_replacement (x # pool) r)"
      using 3(1)[OF 3(3) 3(4) _ _ lu] 3(5) 3(6) t by auto
    then show ?thesis using t True by simp
  next
    case False
    with 3(6) t have ypool: "y \<in> set pool" by auto
    have "x \<notin> set t"
    proof
      assume "x \<in> set t"
      with t False have "x \<in> set u" by auto
      with 3(5) t have "R y x" by auto
      moreover from above ypool have "R x y" "x \<noteq> y" by auto
      ultimately show False using 3(4) by blast
    qed
    with 3(6) have "set t \<subseteq> set pool" by auto
    from 3(2)[OF strict 3(4) 3(5) this 3(7)] show ?thesis by simp
  qed
qed

lemma cwr_distinct:
  "distinct pool \<Longrightarrow> distinct (combinations_with_replacement pool r)"
proof (induction pool r rule: combinations_with_replacement.induct)
  case (1 pool)
  then show ?case by simp
next
  case (2 r)
  then show ?case by simp
next
  case (3 x pool r)
  have sub: "\<And>t. t \<in> set (combinations_with_replacement pool (Suc r)) \<Longrightarrow> set t \<subseteq> set pool \<and> length t = Suc r"
    using cwr_sound[of "\<lambda>a b. True" pool] by simp
  have "x # u \<notin> set (combinations_with_replacement pool (Suc r))" for u
    using sub[of "x # u"] 3(3) by auto
  then have disj: "set (map ((#) x) (combinations_with_replacement (x # pool) r))
       \<inter> set (combinations_with_replacement pool (Suc r)) = {}" by auto
  have "distinct (map ((#) x) (combinations_with_replacement (x # pool) r))"
    using 3(1)[OF 3(3)] by (simp add: distinct_map)
  moreover have "distinct (combinations_with_replacement pool (Suc r))" using 3 by simp
  ultimately show ?case using disj by simp
qed

lemma sorted_wrt_True: "sorted_wrt (\<lambda>a b. True) xs"
  by (induction xs) auto

lemma arange_pos:
  assumes "0 < delta"
  shows "arange delta = Inr (map (\<lambda>i. real i * delta) [0..<nat \<lceil>360 / delta\<rceil>])"
  using assms by (simp add: arange_def)

lemma grid_set:
  assumes "0 < delta"
  shows "set (map (\<lambda>i. real i * delta) [0..<nat \<lceil>360 / delta\<rceil>])
         = {real k * delta |k. real k * delta < 360}"
proof -
  have "k < nat \<lceil>360 / delta\<rceil> \<longleftrightarrow> real k * delta < 360" for k :: nat
  proof -
    have "k < nat \<lceil>360 / delta\<rceil> \<longleftrightarrow> int k < \<lceil>360 / delta\<rceil>" by linarith
    also have "\<dots> \<longleftrightarrow> real_of_int (int k) < 360 / delta" by (rule less_ceiling_iff)
    also have "\<dots> \<longleftrightarrow> real k * delta < 360" using assms by (simp add: pos_less_divide_eq)
    finally show ?thesis .
  qed
  then show ?thesis by auto
qed

lemma grid_strict:
  assumes "0 < delta"
  shows "sorted_wrt (<) (map (\<lambda>i. real i * delta) [0..<n])"
proof -
  have "sorted_wrt (\<lambda>i j. real i * delta < real j * delta) [0..<n]"
    using assms by (intro sorted_wrt_mono_rel[OF _ sorted_wrt_upt]) auto
  then show ?thesis by (simp add: sorted_wrt_map)
qed

lemma grid_cwr_sets:
  fixes grid :: "real list"
  assumes "sorted_wrt (<) grid"
  shows "set (combinations_with_replacement grid n) = {t. length t = n \<and> set t \<subseteq> set grid \<and> sorted t}"
    and "set (combinations_with_replacement (rev grid) n) = {t. length t = n \<and> set t \<subseteq> set grid \<and> sorted (rev t)}"
proof -
  have le: "sorted_wrt (\<le>) grid" and strict: "sorted_wrt (\<lambda>a b. a \<le> b \<and> a \<noteq> b) grid"
    using assms by (auto intro: sorted_wrt_mono_rel[of _ "(<)"])
  show "set (combinations_with_replacement grid n) = {t. length t = n \<and> set t \<subseteq> set grid \<and> sorted t}"
    using cwr_sound[of "(\<le>)" grid _ n, OF le] cwr_complete[of "(\<le>)" grid _ n, OF strict]
    by auto
  have ge: "sorted_wrt (\<ge>) (rev grid)" and gstrict: "sorted_wrt (\<lambda>a b. a \<ge> b \<and> a \<noteq> b) (rev grid)"
    using le strict by (auto simp: sorted_wrt_rev intro: sorted_wrt_mono_rel[of _ "(\<lambda>x y. x \<le> y \<and> x \<noteq> y)"])
  show "set (combinations_with_replacement (rev grid) n) = {t. length t = n \<and> set t \<subseteq> set grid \<and> sorted (rev t)}"
    using cwr_sound[of "(\<ge>)" "rev grid" _ n, OF ge] cwr_complete[of "(\<ge>)" "rev grid" _ n, OF gstrict]
    by (auto simp: sorted_wrt_rev)
qed

lemma torsion_combos_set:
  "set (torsion_combos grid n) =
     set (combinations_with_replacement grid n)
     \<union> (if 1 < n then set (combinations_with_replacement (rev grid) n) else {})"
proof (cases n)
  case 0
  then show ?thesis by (simp add: torsion_combos_def)
next
  case (Suc m)
  then show ?thesis by (cases m) (auto simp: torsion_combos_def Let_def)
qed

lemma torsion_combos_distinct: "distinct grid \<Longrightarrow> distinct (torsion_combos grid n)"
  by (simp add: torsion_combos_def Let_def cwr_distinct)

text \<open>
  Claim C8. For a positive step the grid is the set of the multiples of \<open>delta\<close> in
  \<open>[0, 360)\<close>. The torsion tuples are the combinations with replacement of the grid of
  size \<open>n\<close> (the non-decreasing tuples over the grid), joined, when there is more than one
  torsion, with those of the reversed grid (the non-increasing tuples), without
  repetition. For \<open>delta = 120\<close> the grid is 0, 120, 240 and one torsion has three tuples.
\<close>

theorem torsion_grid_and_tuples:
  assumes "0 < delta"
  shows "\<exists>grid. arange delta = Inr grid
      \<and> set grid = {real k * delta |k. real k * delta < 360}
      \<and> set (torsion_combos grid n) =
          set (combinations_with_replacement grid n)
          \<union> (if 1 < n then set (combinations_with_replacement (rev grid) n) else {})
      \<and> set (combinations_with_replacement grid n)
          = {t. length t = n \<and> set t \<subseteq> set grid \<and> sorted t}
      \<and> set (combinations_with_replacement (rev grid) n)
          = {t. length t = n \<and> set t \<subseteq> set grid \<and> sorted (rev t)}
      \<and> distinct (torsion_combos grid n)
      \<and> arange 120 = Inr [0, 120, 240]
      \<and> length (torsion_combos [0, 120, 240] 1) = 3"
proof -
  let ?grid = "map (\<lambda>i. real i * delta) [0..<nat \<lceil>360 / delta\<rceil>]"
  have strict: "sorted_wrt (<) ?grid" using assms by (rule grid_strict)
  then have "distinct ?grid" using strict_sorted_iff by blast
  then have d: "distinct (torsion_combos ?grid n)" by (rule torsion_combos_distinct)
  have ex: "arange 120 = Inr [0, 120, 240]" by (simp add: arange_def upt_conv_Cons)
  have three: "length (torsion_combos [0, 120, 240 :: real] 1) = 3"
    by (simp add: torsion_combos_def)
  show ?thesis
    using arange_pos[OF assms] grid_set[OF assms] torsion_combos_set[of ?grid n]
      grid_cwr_sets[OF strict, of n] d ex three
    by (intro exI[of _ ?grid]) simp
qed

theorem torsion_grid_and_tuples_witness:
  "(0::real) < 120
   \<and> arange 120 = Inr [0, 120, 240]
   \<and> set [0, 120, 240] = {real k * 120 |k. real k * 120 < 360}
   \<and> set (torsion_combos [0, 120, 240] 1) = set (combinations_with_replacement [0, 120, 240 :: real] 1)
   \<and> torsion_combos [0, 120, 240] 1 = [[0], [120], [240]]"
proof -
  have ex: "arange 120 = Inr [0, 120, 240]" by (simp add: arange_def upt_conv_Cons)
  from torsion_grid_and_tuples[of 120 1] ex
  have "set [0, 120, 240] = {real k * 120 |k. real k * 120 < 360}"
    and "set (torsion_combos [0, 120, 240] 1) = set (combinations_with_replacement [0, 120, 240 :: real] 1)"
    by auto
  moreover have "torsion_combos [0, 120, 240 :: real] 1 = [[0], [120], [240]]"
    by (simp add: torsion_combos_def)
  ultimately show ?thesis using ex by simp
qed

lemma arange_cases:
  assumes "arange delta = Inr grid"
  shows "sorted_wrt (<) grid"
proof (cases "0 < delta")
  case True
  with assms have "grid = map (\<lambda>i. real i * delta) [0..<nat \<lceil>360 / delta\<rceil>]"
    by (simp add: arange_def)
  then show ?thesis using grid_strict[OF True] by simp
next
  case False
  with assms have neg: "delta < 0" by (auto simp: arange_def split: if_splits)
  then have "360 / delta \<le> 0" by (simp add: divide_nonpos_neg)
  then have "\<lceil>360 / delta\<rceil> \<le> 0" by (simp add: ceiling_le_zero)
  with assms neg show ?thesis by (simp add: arange_def)
qed

lemma find_all_combos_Inr:
  assumes "find_all_combos ext conformer delta cf chf = Inr combos"
  shows "\<exists>grid. arange delta = Inr grid \<and>
     combos = List.product (torsion_combos grid (length (snd (find_terminal_torsions ext conformer))))
               (List.product (cistrans_combos cf (length (cistrans conformer)))
                  (chiral_combos (chiral_centers conformer)))"
  using assms
  by (auto simp: find_all_combos_def Let_def split: prod.splits sum.splits)

lemma cwr_length:
  "t \<in> set (combinations_with_replacement pool r) \<Longrightarrow> length t = r"
  using cwr_sound[of "\<lambda>a b. True" pool t r] by (simp add: sorted_wrt_True)

lemma torsion_combos_length: "t \<in> set (torsion_combos grid n) \<Longrightarrow> length t = n"
  by (auto simp: torsion_combos_set dest: cwr_length split: if_splits)

lemma cistrans_combos_length:
  "c \<in> set (cistrans_combos cf n) \<Longrightarrow> (if cf then length c = n else c = [])"
  by (auto simp: cistrans_combos_def Let_def dest: cwr_length split: if_splits)

lemma chiral_combos_length: "s \<in> set (chiral_combos cs) \<Longrightarrow> length s = length cs"
  by (auto simp: chiral_combos_def Let_def dest: cwr_length split: if_splits)

text \<open>
  Claim C10. Every torsion tuple of a combination that \<open>find_all_combos\<close> returns is
  non-decreasing, or, only when there is more than one torsion, non-increasing. The
  tuple (0, 240, 120) is therefore not among the tuples for three torsions (the witness).
\<close>

theorem torsion_tuples_monotone:
  assumes "find_all_combos ext conformer delta cf chf = Inr combos"
      and "(t, c, s) \<in> set combos"
  shows "sorted t \<or> (1 < length (snd (find_terminal_torsions ext conformer)) \<and> sorted (rev t))"
proof -
  let ?n = "length (snd (find_terminal_torsions ext conformer))"
  from find_all_combos_Inr[OF assms(1)] obtain grid where
    g: "arange delta = Inr grid" and "combos = List.product (torsion_combos grid ?n)
               (List.product (cistrans_combos cf (length (cistrans conformer)))
                  (chiral_combos (chiral_centers conformer)))" by blast
  with assms(2) have "t \<in> set (torsion_combos grid ?n)" by auto
  then show ?thesis
    using grid_cwr_sets[OF arange_cases[OF g], of ?n]
    by (auto simp: torsion_combos_set split: if_splits)
qed

lemma ex_find_all_combos_3:
  "find_all_combos ex_ext (ex_conformer 3 0 0) 120 True True
   = Inr (List.product (torsion_combos [0, 120, 240] 3) [([], [])])"
proof -
  have "[0..<3] = [0, 1, 2]" by (simp add: upt_conv_Cons)
  then have "length (torsions (ex_conformer 3 0 0)) = 3" by (simp add: ex_conformer_def)
  moreover have "arange 120 = Inr [0, 120, 240]" by (simp add: arange_def upt_conv_Cons)
  ultimately show ?thesis
    by (simp add: find_all_combos_def ex_ext_def cistrans_combos_def chiral_combos_def
        ex_conformer_def)
qed

theorem torsion_tuples_monotone_witness:
  "(\<exists>combos. find_all_combos ex_ext (ex_conformer 3 0 0) 120 True True = Inr combos
      \<and> ([240, 120, 0], [], []) \<in> set combos
      \<and> 1 < length (snd (find_terminal_torsions ex_ext (ex_conformer 3 0 0)))
      \<and> sorted (rev [240, 120, 0 :: real])
      \<and> ([0, 240, 120], [], []) \<notin> set combos)"
proof -
  let ?combos = "List.product (torsion_combos [0, 120, 240 :: real] 3) [([] :: string list, [] :: string list)]"
  have "[240, 120, 0] \<in> set (combinations_with_replacement (rev [0, 120, 240 :: real]) 3)"
    by (subst grid_cwr_sets(2)) auto
  then have a: "([240, 120, 0], [], []) \<in> set ?combos"
    by (simp add: torsion_combos_set)
  have b: "([0, 240, 120], [], []) \<notin> set ?combos"
    using torsion_tuples_monotone[OF ex_find_all_combos_3, of "[0, 240, 120]" "[]" "[]"]
    by auto
  have c: "1 < length (snd (find_terminal_torsions ex_ext (ex_conformer 3 0 0)))"
    by (simp add: ex_ext_def ex_conformer_def)
  show ?thesis using ex_find_all_combos_3 a b c by auto
qed

text \<open>
  Claim C3, amended. The number of combinations is the product of the numbers of torsion
  tuples, of E/Z tuples and of R/S tuples. In every combination the torsion tuple has one
  angle for each torsion that \<open>find_terminal_torsions\<close> returns as its second component;
  the E/Z tuple has one label for each cis/trans bond when the flag \<open>cistrans\<close> is set and
  is empty when it is not; the R/S tuple has one label for each chiral centre when the
  flag \<open>chiral_centers\<close> is set.
\<close>

theorem combination_count_and_lengths:
  assumes "find_all_combos ext conformer delta cf chf = Inr combos"
  shows "\<exists>grid. arange delta = Inr grid
     \<and> length combos =
         length (torsion_combos grid (length (snd (find_terminal_torsions ext conformer))))
         * length (cistrans_combos cf (length (cistrans conformer)))
         * length (chiral_combos (chiral_centers conformer))
     \<and> (\<forall>(t, c, s) \<in> set combos.
          length t = length (snd (find_terminal_torsions ext conformer))
          \<and> (cf \<longrightarrow> length c = length (cistrans conformer))
          \<and> (\<not> cf \<longrightarrow> c = [])
          \<and> (chf \<longrightarrow> length s = length (chiral_centers conformer)))"
proof -
  from find_all_combos_Inr[OF assms] obtain grid where
    g: "arange delta = Inr grid" and c: "combos = List.product (torsion_combos grid (length (snd (find_terminal_torsions ext conformer))))
               (List.product (cistrans_combos cf (length (cistrans conformer)))
                  (chiral_combos (chiral_centers conformer)))" by blast
  have "length combos =
         length (torsion_combos grid (length (snd (find_terminal_torsions ext conformer))))
         * length (cistrans_combos cf (length (cistrans conformer)))
         * length (chiral_combos (chiral_centers conformer))"
    by (simp add: c)
  moreover have "\<forall>(t, c, s) \<in> set combos.
          length t = length (snd (find_terminal_torsions ext conformer))
          \<and> (cf \<longrightarrow> length c = length (cistrans conformer))
          \<and> (\<not> cf \<longrightarrow> c = [])
          \<and> (chf \<longrightarrow> length s = length (chiral_centers conformer))"
    using torsion_combos_length cistrans_combos_length chiral_combos_length
    by (fastforce simp: c)
  ultimately show ?thesis using g by blast
qed

text \<open>
  The claim as stated fails with the flag \<open>cistrans\<close> off: a conformer with one cis/trans
  bond gets the single combination with an empty E/Z tuple.
\<close>

theorem combination_lengths_counterexample:
  "find_all_combos ex_ext (ex_conformer 0 1 0) 60 False True = Inr [([], [], [])]
   \<and> length (cistrans (ex_conformer 0 1 0)) = 1"
  by (simp add: find_all_combos_def ex_ext_def ex_conformer_def arange_def
      torsion_combos_def cistrans_combos_def chiral_combos_def)

theorem combination_count_and_lengths_witness:
  "\<exists>combos. find_all_combos ex_ext (ex_conformer 1 1 1) 120 True True = Inr combos
     \<and> length combos = 3 * 2 * 2
     \<and> ([120], [''Z''], [''S'']) \<in> set combos"
proof -
  have e: "find_all_combos ex_ext (ex_conformer 1 1 1) 120 True True
     = Inr (List.product [[0], [120], [240]] (List.product [[''E''], [''Z'']] [[''R''], [''S'']]))"
    by (simp add: find_all_combos_def ex_ext_def ex_conformer_def arange_def upt_conv_Cons
      torsion_combos_def cistrans_combos_def chiral_combos_def)
  from combination_count_and_lengths[OF e]
  have "length (List.product [[0 :: real], [120], [240]] (List.product [[''E''], [''Z'']] [[''R''], [''S'']])) = 3 * 2 * 2"
    by simp
  then show ?thesis using e by simp
qed

section \<open>Properties of the filter and of the removal of near duplicates\<close>

subsection \<open>The frame, the energy window and the sort\<close>

lemma DataFrame_index: "map df_index (DataFrame results) = [0..<length results]"
proof -
  have "(df_index :: 'a df_row \<Rightarrow> nat) \<circ> (\<lambda>(i, e, a, d). \<lparr>df_index = i, df_energy = e, df_arrays = a, df_distances = d\<rparr>) = fst"
    by (auto simp: fun_eq_iff)
  then have "map df_index (DataFrame results) = map fst (enumerate 0 results)"
    by (simp add: DataFrame_def)
  then show ?thesis by (simp add: enumerate_eq_zip)
qed

lemma DataFrame_distinct: "distinct (map df_index (DataFrame results))"
  by (simp add: DataFrame_index)

lemma DataFrame_energies: "map df_energy (DataFrame results) = map fst results"
proof -
  have "(df_energy :: 'a df_row \<Rightarrow> real) \<circ> (\<lambda>(i, e, a, d). \<lparr>df_index = i, df_energy = e, df_arrays = a, df_distances = d\<rparr>)
        = fst \<circ> snd"
    by (auto simp: fun_eq_iff)
  then have "map df_energy (DataFrame results) = map (fst \<circ> snd) (enumerate 0 results)"
    by (simp add: DataFrame_def)
  also have "\<dots> = map fst (map snd (enumerate 0 results))" by (simp only: map_map)
  also have "\<dots> = map fst results" by (simp only: map_snd_enumerate)
  finally show ?thesis .
qed

lemma energy_min_Min:
  "df \<noteq> [] \<Longrightarrow> energy_min df = Some (Min (df_energy ` set df))"
proof -
  assume "df \<noteq> []"
  then obtain r rs where df: "df = r # rs" by (cases df) auto
  have "fold min (map df_energy rs) (df_energy r) = Min (set (df_energy r # map df_energy rs))"
    by (rule Min.set_eq_fold[symmetric])
  then show ?thesis by (simp add: energy_min_def df)
qed

lemma select_window_filter:
  "select_window window df = filter (\<lambda>r. df_energy r < Min (df_energy ` set df) + window) df"
proof (cases "df = []")
  case True
  then show ?thesis by (simp add: select_window_def energy_min_def)
next
  case False
  then show ?thesis by (simp add: select_window_def energy_min_Min)
qed

lemma select_window_set:
  "set (select_window window df) = {r \<in> set df. df_energy r < Min (df_energy ` set df) + window}"
  by (simp add: select_window_filter)

lemma select_window_distinct:
  "distinct (map df_index df) \<Longrightarrow> distinct (map df_index (select_window window df))"
  by (simp add: select_window_filter distinct_map_filter)

lemma sort_values_set: "set (sort_values ties df) = set df"
  by (simp add: sort_values_def)

lemma sort_values_sorted: "sorted (map df_energy (sort_values ties df))"
  by (simp add: sort_values_def)

lemma sort_values_distinct:
  "distinct (map df_index df) \<Longrightarrow> distinct (map df_index (sort_values ties df))"
  by (simp add: sort_values_def distinct_map)

lemma sort_values_Nil: "sort_values ties df = [] \<longleftrightarrow> df = []"
proof -
  have "set (sort_values ties df) = {} \<longleftrightarrow> set df = {}" by (simp only: sort_values_set)
  then show ?thesis by simp
qed

text \<open>A list that is sorted by a key without repetition is fixed by its elements.\<close>

lemma sorted_keys_unique:
  assumes "sorted (map f xs)" "distinct (map f xs)"
      and "sorted (map f ys)" "distinct (map f ys)"
      and "set xs = set ys"
  shows "xs = ys"
proof -
  have "set (map f xs) = set (map f ys)" using assms(5) by simp
  with assms(1-4) have "map f xs = map f ys" by (intro sorted_distinct_set_unique)
  moreover have "inj_on f (set xs \<union> set ys)" using assms(2,5) by (simp add: distinct_map)
  ultimately show ?thesis by (simp add: inj_on_map_eq_map)
qed

text \<open>
  The parameter \<open>ties\<close> leaves the sort free among rows of equal energy and no further:
  every arrangement of the rows in ascending order of energy is the value of
  \<open>sort_values\<close> for some \<open>ties\<close>.
\<close>

text \<open>
  Every arrangement of the rows in ascending order of energy is the result of
  \<open>sort_values\<close> for some order of the ties, so that no outcome of the sort of line 232
  is left out.
\<close>

lemma positions_in_list:
  "distinct ys \<Longrightarrow> map (\<lambda>r. length (takeWhile (\<lambda>x. x \<noteq> r) ys)) ys = [0..<length ys]"
proof (induction ys)
  case Nil
  then show ?case by simp
next
  case (Cons y ys)
  then have IH: "map (\<lambda>r. length (takeWhile (\<lambda>x. x \<noteq> r) ys)) ys = [0..<length ys]"
    and y: "y \<notin> set ys" by simp_all
  have "map (\<lambda>r. length (takeWhile (\<lambda>x. x \<noteq> r) (y # ys))) ys
        = map (\<lambda>r. Suc (length (takeWhile (\<lambda>x. x \<noteq> r) ys))) ys"
    using y by (intro map_cong refl) auto
  also have "\<dots> = map Suc (map (\<lambda>r. length (takeWhile (\<lambda>x. x \<noteq> r) ys)) ys)" by simp
  also have "\<dots> = [Suc 0..<Suc (length ys)]" by (simp only: IH map_Suc_upt)
  finally show ?case by (simp add: upt_conv_Cons del: upt_Suc)
qed

lemma sort_values_any_order:
  assumes "distinct df" and "distinct ys" and "set ys = set df"
      and "sorted (map df_energy ys)"
  shows "\<exists>ties. sort_values ties df = ys"
proof -
  let ?pos = "\<lambda>r. length (takeWhile (\<lambda>x. x \<noteq> r) ys)"
  have p: "map ?pos ys = [0..<length ys]" by (rule positions_in_list[OF assms(2)])
  have sy: "sorted (map ?pos ys)" and dy: "distinct (map ?pos ys)" by (simp_all only: p sorted_upt distinct_upt)
  have "inj_on ?pos (set df)" using dy assms(3) by (simp add: distinct_map)
  then have dd: "distinct (map ?pos (sort_key ?pos df))"
    using assms(1) by (simp add: distinct_map)
  have "sort_key ?pos df = ys"
    by (rule sorted_keys_unique[of ?pos]) (use dd sy dy assms(3) in simp_all)
  then have "sort_values (\<lambda>df. ?pos) df = ys"
    using assms(4) by (simp add: sort_values_def sort_key_id_if_sorted)
  then show ?thesis by blast
qed

lemma filtered_frame_set:
  "set (filtered_frame ties window results)
   = {r \<in> set (DataFrame results).
        df_energy r < Min (df_energy ` set (DataFrame results)) + window}"
  by (simp add: filtered_frame_def sort_values_set select_window_set)

lemma filtered_frame_distinct: "distinct (map df_index (filtered_frame ties window results))"
  by (simp add: filtered_frame_def sort_values_distinct select_window_distinct DataFrame_distinct)

lemma three_energies:
  fixes window :: real
  assumes "0 < window"
  shows "map df_index (filtered_frame ties window
           [(0, a0, d0), (0.2 * window, a1, d1), (2 * window, a2, d2)]) = [0, 1]"
proof -
  let ?r0 = "\<lparr>df_index = 0, df_energy = 0, df_arrays = a0, df_distances = d0\<rparr>"
  let ?r1 = "\<lparr>df_index = 1, df_energy = 0.2 * window, df_arrays = a1, df_distances = d1\<rparr>"
  have "min (2 * window) (min (window / 5) 0) = 0" using assms by simp
  then have sel: "select_window window (DataFrame [(0, a0, d0), (0.2 * window, a1, d1), (2 * window, a2, d2)])
             = [?r0, ?r1]"
    using assms by (simp add: DataFrame_def select_window_def energy_min_def)
  have "sort_values ties [?r0, ?r1] = [?r0, ?r1]"
  proof (rule sorted_keys_unique[of df_energy])
    show "sorted (map df_energy (sort_values ties [?r0, ?r1]))" by (rule sort_values_sorted)
    show "distinct (map df_energy (sort_values ties [?r0, ?r1]))"
      using assms by (simp add: sort_values_def distinct_map inj_on_def)
    show "sorted (map df_energy [?r0, ?r1])" using assms by simp
    show "distinct (map df_energy [?r0, ?r1])" using assms by simp
    show "set (sort_values ties [?r0, ?r1]) = set [?r0, ?r1]" by (rule sort_values_set)
  qed
  then have "map df_index (sort_values ties [?r0, ?r1]) = [0, 1]" by simp
  then show ?thesis by (simp only: filtered_frame_def sel)
qed

text \<open>
  Claim C4, amended. The filtered frame holds exactly the rows whose energy is strictly
  less than the lowest energy plus the window, each once, in ascending order of energy,
  however the sort orders rows of equal energy. With a positive window \<open>w\<close> (1 kcal/mol in
  the unit of the energies), of the energies 0, 0.2 and 2 kcal/mol, that is \<open>0\<close>,
  \<open>0.2 * w\<close> and \<open>2 * w\<close>, the first two are kept.
\<close>

theorem energy_window_filter:
  fixes results :: "'p relaxed list" and a0 a1 a2 :: "string \<rightharpoonup> 'p"
  shows "set (filtered_frame ties window results)
     = {r \<in> set (DataFrame results).
          df_energy r < Min (df_energy ` set (DataFrame results)) + window}
   \<and> distinct (map df_index (filtered_frame ties window results))
   \<and> sorted (map df_energy (filtered_frame ties window results))
   \<and> (0 < window \<longrightarrow>
        map df_index (filtered_frame ties window
          [(0, a0, d0), (0.2 * window, a1, d1), (2 * window, a2, d2)]) = [0, 1])"
  using filtered_frame_set[of ties window results] filtered_frame_distinct[of ties window results]
    three_energies[of window ties a0 d0 a1 d1 a2 d2]
  by (simp add: filtered_frame_def sort_values_sorted)

theorem energy_window_filter_witness:
  "(0::real) < 1
   \<and> map df_index (filtered_frame (\<lambda>df r. 0) 1
        [(0, Map.empty, []), (0.2 * 1, Map.empty, []), (2 * 1, (Map.empty :: string \<rightharpoonup> unit), [])]) = [0, 1]"
  using energy_window_filter[of "\<lambda>df r. 0" 1 "[] :: unit relaxed list" Map.empty "[]" Map.empty "[]" Map.empty "[]"]
  by simp

text \<open>
  The claim as stated (less than or equal) fails on the boundary: with window 1, a
  candidate whose energy is exactly the lowest energy plus 1 is dropped.
\<close>

theorem energy_window_boundary_counterexample:
  "map df_energy (filtered_frame (\<lambda>df r. 0) 1
      [(0, Map.empty, []), (1, (Map.empty :: string \<rightharpoonup> unit), [])]) = [0]
   \<and> (1::real) \<le> 0 + 1"
  by (simp add: filtered_frame_def DataFrame_def select_window_def energy_min_def sort_values_def)

subsection \<open>The loop of lines 235 to 242\<close>

lemma array_minus_series_raises: "array_minus_series a column = Inl ValueError"
  by (simp add: array_minus_series_def)

lemma unique_loop_first_row:
  "unique_loop (row # df) (row # rest) [] [] = Inl ValueError"
  by (simp add: loc_distances_def array_minus_series_raises)

lemma find_unique_Nil: "find_unique [] = Inr []"
  by (simp add: find_unique_def)

lemma find_unique_Cons: "find_unique (row # df) = Inl ValueError"
  by (simp only: find_unique_def unique_loop_first_row sum.case)

lemma deduplicate_cases:
  "deduplicate ties window df0
   = (if select_window window df0 = [] then Inr [] else Inl ValueError)"
proof (cases "sort_values ties (select_window window df0)")
  case Nil
  then have "select_window window df0 = []" by (simp add: sort_values_Nil)
  then show ?thesis by (simp add: deduplicate_def sort_values_def find_unique_Nil)
next
  case (Cons row df)
  then have "select_window window df0 \<noteq> []" by (auto simp: sort_values_def)
  then show ?thesis by (simp add: deduplicate_def Cons find_unique_Cons)
qed



lemma kept_energy_arrays_cases:
  "kept_energy_arrays ties window items
   = (if select_window window (DataFrame (map snd items)) = [] then Inr [] else Inl ValueError)"
  by (simp add: kept_energy_arrays_def deduplicate_cases energy_arrays_def)




section \<open>Properties of systematic_search\<close>

subsection \<open>Building the candidates\<close>

lemma build_conformers_general:
  assumes "conformer < next_ref h"
      and "build_conformers ext conformer (enumerate k combos) h conformers = Inr (h', conformers')"
  shows "conformers' = conformers @ map (\<lambda>j. (k + j, next_ref h + j)) [0..<length combos]
       \<and> next_ref h' = next_ref h + length combos
       \<and> apply_combos ext combos (store h conformer) = Inr (store h' conformer)
       \<and> (\<forall>r<next_ref h. r \<noteq> conformer \<longrightarrow> store h' r = store h r)
       \<and> (\<forall>j<length combos. \<exists>c. apply_combos ext (take (Suc j) combos) (store h conformer) = Inr c
              \<and> store h' (next_ref h + j) = copy ext c)"
  using assms
proof (induction combos arbitrary: k h conformers)
  case Nil
  then show ?case by simp
next
  case (Cons combo combos)
  from Cons.prems(2) obtain c where c: "apply_combo ext combo (store h conformer) = Inr c"
    by (auto split: sum.splits)
  let ?h1 = "h\<lparr>store := (store h)(conformer := c)\<rparr>"
  let ?h2 = "?h1\<lparr>store := (store ?h1)(next_ref h := copy ext c), next_ref := Suc (next_ref h)\<rparr>"
  from Cons.prems(2) c have rec:
    "build_conformers ext conformer (enumerate (Suc k) combos) ?h2 (conformers @ [(k, next_ref h)])
     = Inr (h', conformers')"
    by (simp add: alloc_def)
  have lt: "conformer < next_ref ?h2" using Cons.prems(1) by simp
  have base: "store ?h2 conformer = c" using Cons.prems(1) by simp
  note IH = Cons.IH[OF lt rec]
  have 1: "conformers' = conformers @ map (\<lambda>j. (k + j, next_ref h + j)) [0..<length (combo # combos)]"
  proof -
    have "map (\<lambda>j. (k + j, next_ref h + j)) [0..<Suc (length combos)]
          = (k, next_ref h) # map (\<lambda>j. (Suc k + j, Suc (next_ref h) + j)) [0..<length combos]"
      by (simp add: upt_conv_Cons map_Suc_upt[symmetric] del: upt_Suc)
    with IH show ?thesis by simp
  qed
  have 2: "next_ref h' = next_ref h + length (combo # combos)" using IH by simp
  have 3: "apply_combos ext (combo # combos) (store h conformer) = Inr (store h' conformer)"
    using IH c base by simp
  have 4: "\<forall>r<next_ref h. r \<noteq> conformer \<longrightarrow> store h' r = store h r"
    using IH by auto
  have 5: "\<exists>c'. apply_combos ext (take (Suc j) (combo # combos)) (store h conformer) = Inr c'
              \<and> store h' (next_ref h + j) = copy ext c'" if "j < length (combo # combos)" for j
  proof (cases j)
    case 0
    have "store h' (next_ref h) = store ?h2 (next_ref h)" using IH Cons.prems(1) by auto
    then show ?thesis using 0 c Cons.prems(1) by simp
  next
    case (Suc j')
    with that have "j' < length combos" by simp
    with IH obtain c' where "apply_combos ext (take (Suc j') combos) (store ?h2 conformer) = Inr c'"
      "store h' (next_ref ?h2 + j') = copy ext c'" by blast
    then show ?thesis using Suc c base by simp
  qed
  from 1 2 3 4 5 show ?case by blast
qed

text \<open>
  Claim C1, amended. The loop of line 147 applies every combination to the object
  \<open>conformer\<close> itself and stores a copy after each one. When it ends, there is one
  candidate for each combination, keyed by the position of the combination; the
  candidates are new objects, different from each other and from every object that
  existed before; candidate \<open>i\<close> is the copy of the base object as it was after the
  combinations 0 to \<open>i\<close>; the base object holds the state after all combinations; no other
  object that existed before has changed; and writing to one candidate changes neither
  the base object nor another candidate.
\<close>

theorem candidates_are_independent_copies:
  assumes "conformer < next_ref h"
      and "build_conformers ext conformer (enumerate 0 combos) h [] = Inr (h', conformers)"
  shows "map fst conformers = [0..<length combos]
     \<and> distinct (map snd conformers)
     \<and> (\<forall>r\<in>set (map snd conformers). next_ref h \<le> r \<and> r < next_ref h')
     \<and> apply_combos ext combos (store h conformer) = Inr (store h' conformer)
     \<and> (\<forall>i<length combos. \<exists>c.
            apply_combos ext (take (Suc i) combos) (store h conformer) = Inr c
            \<and> store h' (snd (conformers ! i)) = copy ext c)
     \<and> (\<forall>r<next_ref h. r \<noteq> conformer \<longrightarrow> store h' r = store h r)
     \<and> (\<forall>i<length combos. \<forall>c.
            ((store h')(snd (conformers ! i) := c)) conformer = store h' conformer
            \<and> (\<forall>j<length combos. j \<noteq> i \<longrightarrow>
                  ((store h')(snd (conformers ! i) := c)) (snd (conformers ! j))
                  = store h' (snd (conformers ! j))))"
proof -
  note g = build_conformers_general[OF assms(1) assms(2)]
  from g have cs: "conformers = map (\<lambda>j. (j, next_ref h + j)) [0..<length combos]" by simp
  have nth: "snd (conformers ! i) = next_ref h + i" if "i < length combos" for i
    using that by (simp add: cs)
  have 1: "map fst conformers = [0..<length combos]" by (simp add: cs comp_def)
  have 2: "distinct (map snd conformers)"
    by (simp add: cs comp_def distinct_map inj_on_def)
  have 3: "\<forall>r\<in>set (map snd conformers). next_ref h \<le> r \<and> r < next_ref h'"
    using g by (auto simp: cs)
  have 4: "apply_combos ext combos (store h conformer) = Inr (store h' conformer)" using g by simp
  have 5: "\<forall>i<length combos. \<exists>c.
            apply_combos ext (take (Suc i) combos) (store h conformer) = Inr c
            \<and> store h' (snd (conformers ! i)) = copy ext c"
    using g nth by simp
  have 6: "\<forall>r<next_ref h. r \<noteq> conformer \<longrightarrow> store h' r = store h r" using g by simp
  have 7: "\<forall>i<length combos. \<forall>c.
            ((store h')(snd (conformers ! i) := c)) conformer = store h' conformer
            \<and> (\<forall>j<length combos. j \<noteq> i \<longrightarrow>
                  ((store h')(snd (conformers ! i) := c)) (snd (conformers ! j))
                  = store h' (snd (conformers ! j)))"
    using assms(1) nth by auto
  from 1 2 3 4 5 6 7 show ?thesis by blast
qed

lemma ex_combos: "find_all_combos ex_ext (ex_conformer 1 0 0) 180 True True
                  = Inr [([0], [], []), ([180], [], [])]"
  by (simp add: find_all_combos_def ex_ext_def ex_conformer_def arange_def upt_conv_Cons
      torsion_combos_def cistrans_combos_def chiral_combos_def)

lemma ex_build:
  "build_conformers ex_ext 0 (enumerate 0 [([0], [], []), ([180], [], [])]) ex_heap []
   = Inr (\<lparr>store = (store ex_heap)
              (0 := (ex_conformer 1 0 0)\<lparr>ase_molecule := [((0, 1, 2, 3), 180)]\<rparr>,
               1 := (ex_conformer 1 0 0)\<lparr>ase_molecule := [((0, 1, 2, 3), 0)]\<rparr>,
               2 := (ex_conformer 1 0 0)\<lparr>ase_molecule := [((0, 1, 2, 3), 180)]\<rparr>),
            next_ref = 3\<rparr>,
          [(0, 1), (1, 2)])"
  by (simp add: ex_heap_def ex_ext_def ex_conformer_def ex_torsion_def apply_combo_def alloc_def
      fun_upd_twist numeral_2_eq_2)

text \<open>
  The claim as stated fails in its first part: building the candidates changes the base
  structure. For a conformer with one torsion at 60 degrees and \<open>delta = 180\<close> the
  combinations are the angles 0 and 180, and after the loop the dihedral of the base
  object (reference 0) is 180.
\<close>

theorem base_structure_modified_counterexample:
  "find_all_combos ex_ext (store ex_heap 0) 180 True True = Inr [([0], [], []), ([180], [], [])]
   \<and> build_conformers ex_ext 0 (enumerate 0 [([0], [], []), ([180], [], [])]) ex_heap []
     = Inr (\<lparr>store = (store ex_heap)
              (0 := (ex_conformer 1 0 0)\<lparr>ase_molecule := [((0, 1, 2, 3), 180)]\<rparr>,
               1 := (ex_conformer 1 0 0)\<lparr>ase_molecule := [((0, 1, 2, 3), 0)]\<rparr>,
               2 := (ex_conformer 1 0 0)\<lparr>ase_molecule := [((0, 1, 2, 3), 180)]\<rparr>),
            next_ref = 3\<rparr>,
          [(0, 1), (1, 2)])
   \<and> ase_molecule (store ex_heap 0) = [((0, 1, 2, 3), 60)]
   \<and> (ex_conformer 1 0 0)\<lparr>ase_molecule := [((0, 1, 2, 3), 180)]\<rparr> \<noteq> store ex_heap 0"
  using ex_combos ex_build
  by (simp add: ex_heap_def ex_conformer_def ex_torsion_def)

theorem candidates_are_independent_copies_witness:
  "0 < next_ref ex_heap
   \<and> (\<exists>h' conformers.
        build_conformers ex_ext 0 (enumerate 0 [([0], [], []), ([180], [], [])]) ex_heap []
          = Inr (h', conformers)
        \<and> conformers = [(0, 1), (1, 2)]
        \<and> apply_combos ex_ext [([0], [], []), ([180], [], [])] (store ex_heap 0) = Inr (store h' 0)
        \<and> ((store h')(1 := ex_conformer 0 0 0)) 0 = store h' 0
        \<and> ((store h')(1 := ex_conformer 0 0 0)) 2 = store h' 2)"
proof -
  have lt: "0 < next_ref ex_heap" by (simp add: ex_heap_def)
  note t = candidates_are_independent_copies[OF lt ex_build]
  from t have a: "apply_combos ex_ext [([0], [], []), ([180], [], [])] (store ex_heap 0)
      = Inr (store \<lparr>store = (store ex_heap)
              (0 := (ex_conformer 1 0 0)\<lparr>ase_molecule := [((0, 1, 2, 3), 180)]\<rparr>,
               1 := (ex_conformer 1 0 0)\<lparr>ase_molecule := [((0, 1, 2, 3), 0)]\<rparr>,
               2 := (ex_conformer 1 0 0)\<lparr>ase_molecule := [((0, 1, 2, 3), 180)]\<rparr>),
            next_ref = 3\<rparr> 0)" by blast
  show ?thesis using lt ex_build a by simp
qed

subsection \<open>The search without descriptors\<close>

text \<open>
  Claim C2. For a conformer without torsions, cis/trans bonds and chiral centres (and a
  step other than 0, for which \<open>np.arange\<close> raises), \<open>systematic_search\<close> returns the list
  with the one reference it was given, and the store is as it was at the call.
\<close>

theorem degenerate_search_returns_input:
  assumes "torsions (store h conformer) = []"
      and "cistrans (store h conformer) = []"
      and "chiral_centers (store h conformer) = []"
      and "set (snd (find_terminal_torsions ext (store h conformer)))
           \<subseteq> set (torsions (store h conformer))"
      and "delta \<noteq> 0"
  shows "systematic_search ext conformer h delta cistrans_flag chiral_centers_flag
         = Some (Inr ([conformer], h))"
proof -
  from assms(1,4) have t: "snd (find_terminal_torsions ext (store h conformer)) = []" by simp
  have "find_all_combos ext (store h conformer) delta cistrans_flag chiral_centers_flag
        = Inr [([], [], [])]"
    using t assms(2,3,5)
    by (cases "find_terminal_torsions ext (store h conformer)")
       (simp add: find_all_combos_def arange_def torsion_combos_def cistrans_combos_def
          chiral_combos_def)
  then show ?thesis by (simp add: systematic_search_def np_any_def)
qed

theorem degenerate_search_returns_input_witness:
  "torsions (store \<lparr>store = (\<lambda>r. ex_conformer 0 0 0), next_ref = 1\<rparr> 0) = []
   \<and> cistrans (store \<lparr>store = (\<lambda>r. ex_conformer 0 0 0), next_ref = 1\<rparr> 0) = []
   \<and> chiral_centers (store \<lparr>store = (\<lambda>r. ex_conformer 0 0 0), next_ref = 1\<rparr> 0) = []
   \<and> (30::real) \<noteq> 0
   \<and> systematic_search ex_ext 0 \<lparr>store = (\<lambda>r. ex_conformer 0 0 0), next_ref = 1\<rparr> 30 True True
     = Some (Inr ([0], \<lparr>store = (\<lambda>r. ex_conformer 0 0 0), next_ref = 1\<rparr>))"
  using degenerate_search_returns_input[of "\<lparr>store = (\<lambda>r. ex_conformer 0 0 0), next_ref = 1\<rparr>" 0 ex_ext 30 True True]
  by (simp add: ex_conformer_def ex_ext_def)

subsection \<open>The returned conformers\<close>








section \<open>The order of the relaxation results\<close>







lemma select_window_Nil_energies:
  "(select_window window df = [])
   = (\<forall>e \<in> set (map df_energy df). \<not> e < Min (set (map df_energy df)) + window)"
proof -
  have "(select_window window df = []) = (set (select_window window df) = {})" by simp
  also have "\<dots> = (\<forall>r \<in> set df. \<not> df_energy r < Min (df_energy ` set df) + window)"
    by (auto simp: select_window_set)
  finally show ?thesis by simp
qed

lemma retained_frame_empty_same_entries:
  fixes items1 items2 :: "(nat \<times> 'p relaxed) list"
  assumes "set items1 = set items2"
  shows "(select_window window (DataFrame (map snd items1)) = [])
         = (select_window window (DataFrame (map snd items2)) = [])"
proof -
  have "set (map df_energy (DataFrame (map snd items))) = (\<lambda>x. fst (snd x)) ` set items"
    for items :: "(nat \<times> 'p relaxed) list"
    by (simp only: DataFrame_energies map_map set_map comp_def)
  then have "set (map df_energy (DataFrame (map snd items1)))
             = set (map df_energy (DataFrame (map snd items2)))"
    using assms by simp
  then show ?thesis by (simp only: select_window_Nil_energies)
qed

lemma kept_energy_arrays_same_entries:
  "set items1 = set items2
   \<Longrightarrow> kept_energy_arrays ties window items1 = kept_energy_arrays ties window items2"
  by (simp only: kept_energy_arrays_cases retained_frame_empty_same_entries[of items1 items2])

lemma after_relaxations_same_entries:
  assumes "same_entries r1 r2"
  shows "(case r1 of
            None \<Rightarrow> None
          | Some items \<Rightarrow>
              (case kept_energy_arrays ties window items of
                 Inl e \<Rightarrow> Some (Inl e)
               | Inr infos \<Rightarrow> f infos))
         = (case r2 of
              None \<Rightarrow> None
            | Some items \<Rightarrow>
                (case kept_energy_arrays ties window items of
                   Inl e \<Rightarrow> Some (Inl e)
                 | Inr infos \<Rightarrow> f infos))"
proof (cases r1)
  case None
  then show ?thesis using assms by (cases r2) simp_all
next
  case (Some items1)
  then obtain items2 where r2: "r2 = Some items2" and s: "set items1 = set items2"
    using assms by (cases r2) simp_all
  show ?thesis
    by (simp only: Some r2 option.case kept_energy_arrays_same_entries[OF s])
qed





end
